theory Spec2Isabelle
  imports Main "HOL-Library.Word"
begin

unbundle bit_operations_syntax

section \<open>Data model of the connection core\<close>

text \<open>
  The development embeds \<^verbatim>\<open>connection.Connection\<close> (the second half of
  \<^verbatim>\<open>src/tool/sync/atomic/int.go\<close>) together with the small part of its
  collaborators that the connection drives: the loop's task queue, the poller
  registration of the descriptor, and a log of every externally visible effect
  (system calls, callbacks, poller changes, pool returns) in the order the code issues
  them.
\<close>

type_synonym byte = "8 word"

type_synonym errno = nat

text \<open>\<^verbatim>\<open>unix.EAGAIN\<close> is errno 11 on Linux.\<close>

definition EAGAIN :: errno where
  "EAGAIN = 11"

text \<open>
  The result of \<^verbatim>\<open>unix.Read\<close> and \<^verbatim>\<open>unix.Write\<close>. Go returns a pair
  \<^verbatim>\<open>(n, err)\<close>; \<^verbatim>\<open>err != nil\<close> exactly when the system call failed, and
  otherwise \<^verbatim>\<open>n\<close> is the non-negative count the kernel reports. \<open>Errno e\<close> is the
  failing pair, \<open>Ret v\<close> the successful one. For a write \<open>v\<close> is \<^verbatim>\<open>n\<close>; for a read
  \<open>v\<close> is the content of \<^verbatim>\<open>buf[:n]\<close>, so that \<^verbatim>\<open>n\<close> is its length.
\<close>

datatype 'a sysres = Ret 'a | Errno errno

text \<open>
  Modelled from the spec: the poller package is not part of the sources. Its event
  bitmask has three distinct indicator bits \<^verbatim>\<open>READ\<close>, \<^verbatim>\<open>WRITE\<close> and \<^verbatim>\<open>ERR\<close>.
\<close>

type_synonym Event = "32 word"

definition EventRead :: Event where
  "EventRead = 0x1"

definition EventWrite :: Event where
  "EventWrite = 0x2"

definition EventErr :: Event where
  "EventErr = 0x80"

datatype error = ErrConnectionClosed

datatype bufname = InBuffer | OutBuffer

text \<open>
  The two closures handed to \<^verbatim>\<open>QueueInLoop\<close>: the one built by \<^verbatim>\<open>Send\<close>
  (it captures the caller's bytes) and the one built by \<^verbatim>\<open>Close\<close>.
\<close>

datatype task = TaskSend "byte list" | TaskClose

datatype interest = ReadOnly | ReadWrite

datatype 'x effect =
    SysRead int
  | SysWrite int "byte list"
  | SysClose int
  | SysShutdown int
  | CallOnMessage "'x option" "byte list"
  | CallOnClose
  | LoopEnableRead int
  | LoopEnableReadWrite int
  | LoopDeleteFd int
  | PoolPut bufname
  | TimerAfterFunc int

text \<open>
  The connection. \<open>fd\<close> to \<open>activeTime\<close> are the fields of the Go struct that the
  modelled methods touch; a ring buffer is represented by the bytes it holds, oldest
  first. \<open>user\<close> is whatever state the application's protocol and callback keep for the
  connection (the \<^verbatim>\<open>ctx\<close> slot and the key/value context). The last three fields
  belong to the collaborators: \<open>queue\<close> is the owning loop's task queue, \<open>interest\<close> the
  poller's registration of \<open>fd\<close> (\<open>None\<close> when the descriptor is not registered), and
  \<open>effects\<close> the log of effects issued so far.
\<close>

record ('x, 'u) Connection =
  fd :: int
  connected :: bool
  outBuffer :: "byte list"
  inBuffer :: "byte list"
  idleTime :: int
  activeTime :: int
  user :: 'u
  queue :: "task list"
  interest :: "interest option"
  effects :: "'x effect list"

text \<open>
  The \<^verbatim>\<open>Protocol\<close> and \<^verbatim>\<open>CallBack\<close> interfaces, supplied by the application.
  Each method may read and update the per-connection user state. \<open>UnPacket\<close> receives
  the bytes of the ring buffer and returns the frame (context and payload) together
  with the bytes it leaves in the buffer.
\<close>

record ('x, 'u) handlers =
  UnPacket :: "'u \<Rightarrow> byte list \<Rightarrow> ('x option \<times> byte list) \<times> byte list \<times> 'u"
  Packet :: "'u \<Rightarrow> byte list \<Rightarrow> byte list \<times> 'u"
  OnMessage :: "'u \<Rightarrow> 'x option \<Rightarrow> byte list \<Rightarrow> byte list \<times> 'u"
  OnClose :: "'u \<Rightarrow> 'u"

text \<open>
  What the environment answers while one readiness event is handled: the clock (in
  nanoseconds since the epoch), the number of stored bytes that lie before the physical
  wrap-around of the output ring buffer, the result of the read, the results of the
  first and the second write, and the error returned by the loop's
  \<^verbatim>\<open>EnableRead\<close> or \<^verbatim>\<open>EnableReadWrite\<close> (\<open>None\<close> is Go's \<^verbatim>\<open>nil\<close>; one
  event makes at most one of these calls).
\<close>

record io =
  io_now :: int
  io_wrap :: nat
  io_read :: "byte list sysres"
  io_write1 :: "nat sysres"
  io_write2 :: "nat sysres"
  io_enable :: "errno option"

section \<open>Collaborators\<close>

text \<open>
  Modelled from the spec: the ring buffer package is not part of the sources. It is a
  byte FIFO with \<^verbatim>\<open>length\<close>, \<^verbatim>\<open>write(bytes)\<close> (append),
  \<^verbatim>\<open>retrieve(n)\<close> (discard the \<open>n\<close> oldest bytes) and \<^verbatim>\<open>peek_all\<close>, which
  returns the two contiguous halves of the stored bytes; \<open>k\<close> is the number of stored
  bytes before the physical wrap-around.
\<close>

definition rb_Length :: "byte list \<Rightarrow> nat" where
  "rb_Length b = length b"

definition rb_Write :: "byte list \<Rightarrow> byte list \<Rightarrow> byte list" where
  "rb_Write b bytes = b @ bytes"

definition rb_Retrieve :: "nat \<Rightarrow> byte list \<Rightarrow> byte list" where
  "rb_Retrieve n b = drop n b"

definition rb_PeekAll :: "nat \<Rightarrow> byte list \<Rightarrow> byte list \<times> byte list" where
  "rb_PeekAll k b = (take k b, drop k b)"

text \<open>
  Modelled from the spec: the event loop is not part of the sources.
  \<^verbatim>\<open>queue_in_loop\<close> is FIFO; \<^verbatim>\<open>delete_fd_in_loop\<close> removes the registration.
  \<^verbatim>\<open>enable_read\<close> and \<^verbatim>\<open>enable_read_write\<close> return an error or \<^verbatim>\<open>nil\<close>:
  \<open>r\<close> is what the call returns. A call that succeeds changes the interest of a
  registered descriptor (and leaves an unregistered one unregistered); a call that
  fails leaves the registration as it was. Both hand \<open>r\<close> back to the caller.
\<close>

definition log_effect :: "'x effect \<Rightarrow> ('x, 'u) Connection \<Rightarrow> ('x, 'u) Connection" where
  "log_effect e c = c\<lparr>effects := effects c @ [e]\<rparr>"

definition QueueInLoop :: "task \<Rightarrow> ('x, 'u) Connection \<Rightarrow> ('x, 'u) Connection" where
  "QueueInLoop t c = c\<lparr>queue := queue c @ [t]\<rparr>"

definition EnableRead ::
  "errno option \<Rightarrow> int \<Rightarrow> ('x, 'u) Connection \<Rightarrow> errno option \<times> ('x, 'u) Connection" where
  "EnableRead r f c =
     (r, log_effect (LoopEnableRead f)
           (case r of
              Some _ \<Rightarrow> c
            | None \<Rightarrow>
                c\<lparr>interest := (case interest c of None \<Rightarrow> None | Some _ \<Rightarrow> Some ReadOnly)\<rparr>))"

definition EnableReadWrite ::
  "errno option \<Rightarrow> int \<Rightarrow> ('x, 'u) Connection \<Rightarrow> errno option \<times> ('x, 'u) Connection" where
  "EnableReadWrite r f c =
     (r, log_effect (LoopEnableReadWrite f)
           (case r of
              Some _ \<Rightarrow> c
            | None \<Rightarrow>
                c\<lparr>interest := (case interest c of None \<Rightarrow> None | Some _ \<Rightarrow> Some ReadWrite)\<rparr>))"

definition DeleteFdInLoop :: "int \<Rightarrow> ('x, 'u) Connection \<Rightarrow> ('x, 'u) Connection" where
  "DeleteFdInLoop f c = log_effect (LoopDeleteFd f) (c\<lparr>interest := None\<rparr>)"

text \<open>\<^verbatim>\<open>time.Time.Unix\<close>: whole seconds of a clock reading in nanoseconds.\<close>

definition Unix :: "int \<Rightarrow> int" where
  "Unix t = t div 1000000000"

section \<open>The connection's methods\<close>

text \<open>
  \<^verbatim>\<open>New\<close> sets \<open>connected\<close> and, when the idle timeout is enabled, records the
  time and arms the timer.

  Modelled from the spec: the buffer pool and the acceptor are not part of the sources.
  Both ring buffers come empty from the pool, and a new connection is registered with
  the poller for read readiness only (no output is pending).
\<close>

definition New :: "int \<Rightarrow> 'u \<Rightarrow> int \<Rightarrow> int \<Rightarrow> ('x, 'u) Connection" where
  "New f u idle now =
     \<lparr>fd = f, connected = True, outBuffer = [], inBuffer = [], idleTime = idle,
      activeTime = (if idle > 0 then Unix now else 0), user = u, queue = [],
      interest = Some ReadOnly,
      effects = (if idle > 0 then [TimerAfterFunc idle] else [])\<rparr>"

definition Send :: "byte list \<Rightarrow> ('x, 'u) Connection \<Rightarrow> error option \<times> ('x, 'u) Connection" where
  "Send buffer c =
     (if \<not> connected c then (Some ErrConnectionClosed, c)
      else (None, QueueInLoop (TaskSend buffer) c))"

definition Close :: "('x, 'u) Connection \<Rightarrow> error option \<times> ('x, 'u) Connection" where
  "Close c =
     (if \<not> connected c then (Some ErrConnectionClosed, c)
      else (None, QueueInLoop TaskClose c))"

text \<open>\<open>r\<close> is what \<^verbatim>\<open>unix.Shutdown\<close> returns; the method hands it on.\<close>

definition ShutdownWrite ::
  "errno option \<Rightarrow> ('x, 'u) Connection \<Rightarrow> errno option \<times> ('x, 'u) Connection" where
  "ShutdownWrite r c = (r, log_effect (SysShutdown (fd c)) (c\<lparr>connected := False\<rparr>))"

text \<open>
  \<^verbatim>\<open>closeTimeoutConn\<close>: the timer callback; \<open>now\<close> is the clock in nanoseconds and
  \<open>idleTime\<close> a duration in nanoseconds.
\<close>

definition closeTimeoutConn :: "int \<Rightarrow> ('x, 'u) Connection \<Rightarrow> ('x, 'u) Connection" where
  "closeTimeoutConn now c =
     (let intervals = now - activeTime c * 1000000000 in
      if intervals \<ge> idleTime c then snd (Close c)
      else log_effect (TimerAfterFunc (idleTime c - intervals)) c)"

definition handleClose ::
  "('x, 'u) handlers \<Rightarrow> int \<Rightarrow> ('x, 'u) Connection \<Rightarrow> ('x, 'u) Connection" where
  "handleClose h f c =
     (if connected c then
        (let c1 = c\<lparr>connected := False\<rparr>;
             c2 = DeleteFdInLoop f c1;
             c3 = log_effect CallOnClose (c2\<lparr>user := OnClose h (user c2)\<rparr>);
             c4 = log_effect (SysClose f) c3;
             c5 = log_effect (PoolPut InBuffer) c4
         in log_effect (PoolPut OutBuffer) c5)
      else c)"

text \<open>
  \<^verbatim>\<open>sendInLoop\<close>: \<open>w\<close> is the result of the write and \<open>en\<close> what
  \<^verbatim>\<open>EnableReadWrite\<close> returns; the code discards the latter.
\<close>

definition sendInLoop ::
  "('x, 'u) handlers \<Rightarrow> nat sysres \<Rightarrow> errno option \<Rightarrow> byte list \<Rightarrow> ('x, 'u) Connection \<Rightarrow>
     ('x, 'u) Connection" where
  "sendInLoop h w en data c =
     (if rb_Length (outBuffer c) > 0 then
        c\<lparr>outBuffer := rb_Write (outBuffer c) data\<rparr>
      else
        (let c1 = log_effect (SysWrite (fd c) data) c in
         case w of
           Errno e \<Rightarrow> (if e = EAGAIN then c1 else handleClose h (fd c1) c1)
         | Ret n \<Rightarrow>
             (let c2 = (if n = 0 then c1\<lparr>outBuffer := rb_Write (outBuffer c1) data\<rparr>
                        else if n < length data
                          then c1\<lparr>outBuffer := rb_Write (outBuffer c1) (drop n data)\<rparr>
                        else c1)
              in if rb_Length (outBuffer c2) > 0 then snd (EnableReadWrite en (fd c2) c2)
                 else c2)))"

text \<open>
  The tail of \<^verbatim>\<open>handleWrite\<close>, reached when no write failed; \<open>en\<close> is what
  \<^verbatim>\<open>EnableRead\<close> returns. An error is written to the program's log and has no
  other consequence.
\<close>

definition handleWrite_done ::
  "errno option \<Rightarrow> int \<Rightarrow> ('x, 'u) Connection \<Rightarrow> ('x, 'u) Connection" where
  "handleWrite_done en f c =
     (if rb_Length (outBuffer c) = 0 then snd (EnableRead en f c) else c)"

definition handleWrite ::
  "('x, 'u) handlers \<Rightarrow> int \<Rightarrow> io \<Rightarrow> ('x, 'u) Connection \<Rightarrow> ('x, 'u) Connection" where
  "handleWrite h f i c =
     (let (first, second) = rb_PeekAll (io_wrap i) (outBuffer c);
          c1 = log_effect (SysWrite (fd c) first) c in
      case io_write1 i of
        Errno e \<Rightarrow> (if e = EAGAIN then c1 else handleClose h f c1)
      | Ret n \<Rightarrow>
          (let c2 = c1\<lparr>outBuffer := rb_Retrieve n (outBuffer c1)\<rparr> in
           if n = length first \<and> length second > 0 then
             (let c3 = log_effect (SysWrite (fd c2) second) c2 in
              case io_write2 i of
                Errno e \<Rightarrow> (if e = EAGAIN then c3 else handleClose h f c3)
              | Ret m \<Rightarrow>
                  handleWrite_done (io_enable i) f
                    (c3\<lparr>outBuffer := rb_Retrieve m (outBuffer c3)\<rparr>))
           else handleWrite_done (io_enable i) f c2))"

subsection \<open>The framing loop\<close>

text \<open>
  The state of the \<^verbatim>\<open>for\<close> loop of \<^verbatim>\<open>handlerProtocol\<close>: the frame last returned
  by \<^verbatim>\<open>UnPacket\<close> (context and payload), the bytes of the buffer being framed, the
  accumulator \<^verbatim>\<open>out\<close>, and the connection.
\<close>

type_synonym ('x, 'u) framing =
  "'x option \<times> byte list \<times> byte list \<times> byte list \<times> ('x, 'u) Connection"

text \<open>The loop condition \<^verbatim>\<open>ctx != nil || len(receivedData) != 0\<close>.\<close>

definition frame_pending :: "('x, 'u) framing \<Rightarrow> bool" where
  "frame_pending s = (case s of (ctx, receivedData, _) \<Rightarrow> ctx \<noteq> None \<or> length receivedData \<noteq> 0)"

text \<open>The loop body.\<close>

definition frame_body :: "('x, 'u) handlers \<Rightarrow> ('x, 'u) framing \<Rightarrow> ('x, 'u) framing" where
  "frame_body h s =
     (case s of (ctx, receivedData, buffer, out, c) \<Rightarrow>
        (let (sendData, u1) = OnMessage h (user c) ctx receivedData;
             c1 = log_effect (CallOnMessage ctx receivedData) (c\<lparr>user := u1\<rparr>);
             (out1, c2) =
               (if length sendData > 0
                then (let (p, u2) = Packet h (user c1) sendData in (out @ p, c1\<lparr>user := u2\<rparr>))
                else (out, c1));
             ((ctx', receivedData'), buffer', u3) = UnPacket h (user c2) buffer
         in (ctx', receivedData', buffer', out1, c2\<lparr>user := u3\<rparr>)))"

partial_function (option) frame_loop ::
  "('x, 'u) handlers \<Rightarrow> ('x, 'u) framing \<Rightarrow> ('x, 'u) framing option" where
  "frame_loop h s = (if frame_pending s then frame_loop h (frame_body h s) else Some s)"

text \<open>
  The statements before the loop: \<^verbatim>\<open>out\<close> starts empty and \<^verbatim>\<open>UnPacket\<close> is
  called once.
\<close>

definition frame_start ::
  "('x, 'u) handlers \<Rightarrow> byte list \<Rightarrow> ('x, 'u) Connection \<Rightarrow> ('x, 'u) framing" where
  "frame_start h buffer c =
     (let ((ctx, receivedData), buffer', u) = UnPacket h (user c) buffer
      in (ctx, receivedData, buffer', [], c\<lparr>user := u\<rparr>))"

text \<open>
  \<^verbatim>\<open>handlerProtocol\<close> returns the accumulator; the model also returns the bytes left
  in the framed buffer and the connection. \<open>None\<close> means that the loop does not end.
\<close>

definition handlerProtocol ::
  "('x, 'u) handlers \<Rightarrow> byte list \<Rightarrow> ('x, 'u) Connection \<Rightarrow>
     (byte list \<times> byte list \<times> ('x, 'u) Connection) option" where
  "handlerProtocol h buffer c =
     (case frame_loop h (frame_start h buffer c) of
        None \<Rightarrow> None
      | Some (_, _, rest, out, c') \<Rightarrow> Some (out, rest, c'))"

subsection \<open>The read path and the dispatch\<close>

text \<open>
  \<open>i\<close> holds the answers of the environment: the result of the one read, in
  \<open>io_write1\<close> the result of the write that \<^verbatim>\<open>sendInLoop\<close> may issue, and in
  \<open>io_enable\<close> what its \<^verbatim>\<open>EnableReadWrite\<close> returns.

  Modelled from the spec: \<^verbatim>\<open>ringbuffer.NewWithData\<close> is not part of the sources. It
  is a transient view over the bytes read; the view is one contiguous region, so the
  first half returned by \<^verbatim>\<open>PeekAll\<close> is all that the framer left unconsumed.
\<close>

definition handleRead ::
  "('x, 'u) handlers \<Rightarrow> int \<Rightarrow> io \<Rightarrow> ('x, 'u) Connection \<Rightarrow> ('x, 'u) Connection option" where
  "handleRead h f i c =
     (let c1 = log_effect (SysRead (fd c)) c in
      case io_read i of
        Errno e \<Rightarrow> (if e \<noteq> EAGAIN then Some (handleClose h f c1) else Some c1)
      | Ret bytes \<Rightarrow>
          if length bytes = 0 then Some (handleClose h f c1)
          else if rb_Length (inBuffer c1) = 0 then
            (case handlerProtocol h bytes c1 of
               None \<Rightarrow> None
             | Some (out, buffer, c2) \<Rightarrow>
                 (let c3 = (if rb_Length buffer > 0
                            then c2\<lparr>inBuffer := rb_Write (inBuffer c2) buffer\<rparr> else c2)
                  in Some (if length out \<noteq> 0 then sendInLoop h (io_write1 i) (io_enable i) out c3 else c3)))
          else
            (case handlerProtocol h (rb_Write (inBuffer c1) bytes) c1 of
               None \<Rightarrow> None
             | Some (out, buffer, c2) \<Rightarrow>
                 (let c3 = c2\<lparr>inBuffer := buffer\<rparr>
                  in Some (if length out \<noteq> 0 then sendInLoop h (io_write1 i) (io_enable i) out c3 else c3))))"

definition HandleEvent ::
  "('x, 'u) handlers \<Rightarrow> int \<Rightarrow> Event \<Rightarrow> io \<Rightarrow> ('x, 'u) Connection \<Rightarrow>
     ('x, 'u) Connection option" where
  "HandleEvent h f events i c =
     (let c0 = (if idleTime c > 0 then c\<lparr>activeTime := Unix (io_now i)\<rparr> else c) in
      if events AND EventErr \<noteq> 0 then Some (handleClose h f c0)
      else if rb_Length (outBuffer c0) \<noteq> 0 then
        (if events AND EventWrite \<noteq> 0 then Some (handleWrite h f i c0)
         else if events AND EventRead \<noteq> 0 then handleRead h f i c0
         else Some c0)
      else Some c0)"

section \<open>The loop around one connection\<close>

text \<open>
  The closures queued by \<^verbatim>\<open>Send\<close> and \<^verbatim>\<open>Close\<close>, as the loop runs them; \<open>w\<close>
  is the result of the write that \<^verbatim>\<open>sendInLoop\<close> may issue and \<open>en\<close> what its
  \<^verbatim>\<open>EnableReadWrite\<close> returns.
\<close>

definition runTask ::
  "('x, 'u) handlers \<Rightarrow> nat sysres \<Rightarrow> errno option \<Rightarrow> task \<Rightarrow> ('x, 'u) Connection \<Rightarrow>
     ('x, 'u) Connection" where
  "runTask h w en t c =
     (case t of
        TaskSend buffer \<Rightarrow>
          (let (p, u) = Packet h (user c) buffer in sendInLoop h w en p (c\<lparr>user := u\<rparr>))
      | TaskClose \<Rightarrow> handleClose h (fd c) c)"

text \<open>
  Modelled from the spec: the loop (not part of the sources) cycles through poll,
  dispatch and the queued tasks, in FIFO order. \<open>runQueued\<close> runs the oldest task.
\<close>

definition runQueued ::
  "('x, 'u) handlers \<Rightarrow> nat sysres \<Rightarrow> errno option \<Rightarrow> ('x, 'u) Connection \<Rightarrow>
     ('x, 'u) Connection" where
  "runQueued h w en c =
     (case queue c of [] \<Rightarrow> c | t # ts \<Rightarrow> runTask h w en t (c\<lparr>queue := ts\<rparr>))"

text \<open>
  Everything that can happen to a connection: a readiness event dispatched by the
  loop, the loop running a queued task, the timer firing, and the application calling
  \<^verbatim>\<open>Send\<close>, \<^verbatim>\<open>Close\<close> or \<^verbatim>\<open>ShutdownWrite\<close>.
\<close>

datatype action =
    Ready Event io
  | Queued "nat sysres" "errno option"
  | Timer int
  | AppSend "byte list"
  | AppClose
  | AppShutdownWrite "errno option"

fun step ::
  "('x, 'u) handlers \<Rightarrow> action \<Rightarrow> ('x, 'u) Connection \<Rightarrow> ('x, 'u) Connection option" where
  "step h (Ready events i) c = HandleEvent h (fd c) events i c"
| "step h (Queued w en) c = Some (runQueued h w en c)"
| "step h (Timer now) c = Some (closeTimeoutConn now c)"
| "step h (AppSend buffer) c = Some (snd (Send buffer c))"
| "step h AppClose c = Some (snd (Close c))"
| "step h (AppShutdownWrite r) c = Some (snd (ShutdownWrite r c))"


fun run ::
  "('x, 'u) handlers \<Rightarrow> action list \<Rightarrow> ('x, 'u) Connection \<Rightarrow> ('x, 'u) Connection option" where
  "run h [] c = Some c"
| "run h (a # as) c = (case step h a c of None \<Rightarrow> None | Some c' \<Rightarrow> run h as c')"

section \<open>Observers of the effect log\<close>



text \<open>
  The effects that only the terminal transition issues, and the part of a connection's
  log that consists of them.
\<close>

fun is_terminal :: "'x effect \<Rightarrow> bool" where
  "is_terminal CallOnClose = True"
| "is_terminal (SysClose _) = True"
| "is_terminal (PoolPut _) = True"
| "is_terminal (LoopDeleteFd _) = True"
| "is_terminal _ = False"

definition terminal_log :: "('x, 'u) Connection \<Rightarrow> 'x effect list" where
  "terminal_log c = filter is_terminal (effects c)"

text \<open>The effects of the terminal transition, in the order \<^verbatim>\<open>handleClose\<close> issues them.\<close>

definition terminal_effects :: "int \<Rightarrow> 'x effect list" where
  "terminal_effects f =
     [LoopDeleteFd f, CallOnClose, SysClose f, PoolPut InBuffer, PoolPut OutBuffer]"

text \<open>The components of a state of the framing loop.\<close>

definition fr_ctx :: "('x, 'u) framing \<Rightarrow> 'x option" where
  "fr_ctx s = (case s of (ctx, _) \<Rightarrow> ctx)"

definition fr_data :: "('x, 'u) framing \<Rightarrow> byte list" where
  "fr_data s = (case s of (_, receivedData, _) \<Rightarrow> receivedData)"

definition fr_buffer :: "('x, 'u) framing \<Rightarrow> byte list" where
  "fr_buffer s = (case s of (_, _, buffer, _) \<Rightarrow> buffer)"

definition fr_out :: "('x, 'u) framing \<Rightarrow> byte list" where
  "fr_out s = (case s of (_, _, _, out, _) \<Rightarrow> out)"

definition fr_conn :: "('x, 'u) framing \<Rightarrow> ('x, 'u) Connection" where
  "fr_conn s = (case s of (_, _, _, _, c) \<Rightarrow> c)"

text \<open>
  The framing loop as the framing contract words it, for comparison with
  \<^verbatim>\<open>handlerProtocol\<close>. One round calls \<^verbatim>\<open>unpack\<close> on what is left of the
  buffer. When frame context and payload are both empty the loop ends. Otherwise
  \<^verbatim>\<open>on_message\<close> is invoked with the frame, a reply that is not empty is packed
  and put in front of what the later rounds produce, and the next round follows.
  \<open>n\<close> bounds the number of calls of \<^verbatim>\<open>unpack\<close>; \<open>None\<close> means that the bound
  does not suffice. The result holds the accumulated output, the frames handed to
  \<^verbatim>\<open>on_message\<close> in order, the bytes left in the buffer, and the user state.
\<close>

fun framing_spec ::
  "('x, 'u) handlers \<Rightarrow> nat \<Rightarrow> 'u \<Rightarrow> byte list \<Rightarrow>
     (byte list \<times> ('x option \<times> byte list) list \<times> byte list \<times> 'u) option" where
  "framing_spec h 0 u buffer = None"
| "framing_spec h (Suc n) u buffer =
     (case UnPacket h u buffer of
        ((frame_ctx, payload), buffer', u1) \<Rightarrow>
          if frame_ctx = None \<and> payload = [] then Some ([], [], buffer', u1)
          else
            (case OnMessage h u1 frame_ctx payload of
               (reply, u2) \<Rightarrow>
                 (case (if reply = [] then ([], u2) else Packet h u2 reply) of
                    (packed, u3) \<Rightarrow>
                      (case framing_spec h n u3 buffer' of
                         None \<Rightarrow> None
                       | Some (out, frames, rest, u') \<Rightarrow>
                           Some (packed @ out, (frame_ctx, payload) # frames, rest, u')))))"

text \<open>The log entries of the \<^verbatim>\<open>OnMessage\<close> calls for a list of frames.\<close>

definition on_message_calls :: "('x option \<times> byte list) list \<Rightarrow> 'x effect list" where
  "on_message_calls frames = map (\<lambda>(frame_ctx, payload). CallOnMessage frame_ctx payload) frames"

text \<open>
  The step shared by the statements before the loop of \<^verbatim>\<open>handlerProtocol\<close> and
  by the end of its body: \<^verbatim>\<open>UnPacket\<close> is called on the buffer, with the
  accumulator as it stands.
\<close>

definition unpack_next ::
  "('x, 'u) handlers \<Rightarrow> byte list \<Rightarrow> byte list \<Rightarrow> ('x, 'u) Connection \<Rightarrow> ('x, 'u) framing" where
  "unpack_next h buffer out c =
     (let ((ctx, receivedData), buffer', u) = UnPacket h (user c) buffer
      in (ctx, receivedData, buffer', out, c\<lparr>user := u\<rparr>))"

text \<open>
  The terminal transition has run at most once: either none of its effects is in the
  log, or the log holds them once, in order, and the connection is no longer connected.
\<close>

definition closed_at_most_once :: "('x, 'u) Connection \<Rightarrow> bool" where
  "closed_at_most_once c =
     (terminal_log c = [] \<or> (\<exists>f. terminal_log c = terminal_effects f) \<and> \<not> connected c)"

text \<open>
  Two connections that differ at most in the user state and in the effect log.
\<close>

definition same_core :: "('x, 'u) Connection \<Rightarrow> ('x, 'u) Connection \<Rightarrow> bool" where
  "same_core c c' =
     (fd c' = fd c \<and> connected c' = connected c \<and> outBuffer c' = outBuffer c \<and>
      inBuffer c' = inBuffer c \<and> idleTime c' = idleTime c \<and> activeTime c' = activeTime c \<and>
      queue c' = queue c \<and> interest c' = interest c)"

text \<open>
  Write interest of a registered descriptor is enabled exactly when output is pending.
\<close>

definition interest_matches_backlog :: "('x, 'u) Connection \<Rightarrow> bool" where
  "interest_matches_backlog c =
     (interest c = None \<or> (interest c = Some ReadWrite) = (outBuffer c \<noteq> []))"

text \<open>A protocol and a callback to run the model on: every byte is one frame, the
  callback echoes the payload, and packing leaves the bytes as they are.\<close>

definition echo :: "(unit, unit) handlers" where
  "echo =
     \<lparr>UnPacket = (\<lambda>u b. case b of [] \<Rightarrow> ((None, []), [], u) | x # xs \<Rightarrow> ((None, [x]), xs, u)),
      Packet = (\<lambda>u d. (d, u)),
      OnMessage = (\<lambda>u ctx d. (d, u)),
      OnClose = (\<lambda>u. u)\<rparr>"

definition quiet :: io where
  "quiet = \<lparr>io_now = 0, io_wrap = 0, io_read = Errno EAGAIN,
            io_write1 = Errno EAGAIN, io_write2 = Errno EAGAIN, io_enable = None\<rparr>"

text \<open>A fresh connection on descriptor 5 with the idle timeout disabled.\<close>

definition conn5 :: "(unit, unit) Connection" where
  "conn5 = New 5 () 0 0"

section \<open>The framing loop as an iteration\<close>

lemma frame_loop_stop: "\<not> frame_pending s \<Longrightarrow> frame_loop h s = Some s"
  by (subst frame_loop.simps) simp

lemma frame_loop_go: "frame_pending s \<Longrightarrow> frame_loop h s = frame_loop h (frame_body h s)"
  by (subst frame_loop.simps) simp

lemma frame_loop_funpow:
  "(\<forall>j<k. frame_pending ((frame_body h ^^ j) s)) \<Longrightarrow> \<not> frame_pending ((frame_body h ^^ k) s)
    \<Longrightarrow> frame_loop h s = Some ((frame_body h ^^ k) s)"
proof (induction k arbitrary: s)
  case 0
  then show ?case by (simp add: frame_loop_stop)
next
  case (Suc k)
  from Suc.prems(1) have p: "frame_pending s" by force
  have a: "\<forall>j<k. frame_pending ((frame_body h ^^ j) (frame_body h s))"
  proof (intro allI impI)
    fix j assume "j < k"
    then have "frame_pending ((frame_body h ^^ Suc j) s)" using Suc.prems(1) by blast
    then show "frame_pending ((frame_body h ^^ j) (frame_body h s))"
      by (simp add: funpow_swap1)
  qed
  have b: "\<not> frame_pending ((frame_body h ^^ k) (frame_body h s))"
    using Suc.prems(2) by (simp add: funpow_swap1)
  from Suc.IH[OF a b] show ?case
    by (simp add: frame_loop_go[OF p] funpow_swap1)
qed

lemma frame_loop_Some:
  assumes "frame_loop h s = Some t"
  shows "\<exists>k. (\<forall>j<k. frame_pending ((frame_body h ^^ j) s)) \<and>
             \<not> frame_pending ((frame_body h ^^ k) s) \<and> t = (frame_body h ^^ k) s"
proof (rule frame_loop.raw_induct
    [where P = "\<lambda>h s t. \<exists>k. (\<forall>j<k. frame_pending ((frame_body h ^^ j) s)) \<and>
             \<not> frame_pending ((frame_body h ^^ k) s) \<and> t = (frame_body h ^^ k) s", OF _ assms])
  fix loop :: "('a, 'b) handlers \<Rightarrow> ('a, 'b) framing \<Rightarrow> ('a, 'b) framing option"
  fix h s t
  assume IH: "\<And>h s t. loop h s = Some t \<Longrightarrow>
      \<exists>k. (\<forall>j<k. frame_pending ((frame_body h ^^ j) s)) \<and>
             \<not> frame_pending ((frame_body h ^^ k) s) \<and> t = (frame_body h ^^ k) s"
    and eq: "(if frame_pending s then loop h (frame_body h s) else Some s) = Some t"
  show "\<exists>k. (\<forall>j<k. frame_pending ((frame_body h ^^ j) s)) \<and>
             \<not> frame_pending ((frame_body h ^^ k) s) \<and> t = (frame_body h ^^ k) s"
  proof (cases "frame_pending s")
    case True
    with eq have "loop h (frame_body h s) = Some t" by simp
    from IH[OF this] obtain k where
      k: "(\<forall>j<k. frame_pending ((frame_body h ^^ j) (frame_body h s))) \<and>
         \<not> frame_pending ((frame_body h ^^ k) (frame_body h s)) \<and>
         t = (frame_body h ^^ k) (frame_body h s)" ..
    have a: "\<forall>j<Suc k. frame_pending ((frame_body h ^^ j) s)"
    proof (intro allI impI)
      fix j assume j: "j < Suc k"
      show "frame_pending ((frame_body h ^^ j) s)"
      proof (cases j)
        case 0 then show ?thesis using True by simp
      next
        case (Suc j')
        with j have "j' < k" by simp
        with k have "frame_pending ((frame_body h ^^ j') (frame_body h s))" by simp
        then show ?thesis using Suc by (simp add: funpow_swap1)
      qed
    qed
    have b: "\<not> frame_pending ((frame_body h ^^ Suc k) s)" using k by (simp add: funpow_swap1)
    have c: "t = (frame_body h ^^ Suc k) s" using k by (simp add: funpow_swap1)
    show ?thesis by (rule exI[of _ "Suc k"]) (intro conjI a b c)
  next
    case False
    with eq have "t = s" by simp
    with False show ?thesis by (intro exI[of _ 0]) simp
  qed
qed


lemmas collab_defs = log_effect_def QueueInLoop_def EnableRead_def EnableReadWrite_def
  DeleteFdInLoop_def rb_Length_def rb_Write_def rb_Retrieve_def rb_PeekAll_def

lemma handleClose_connected:
  "connected c \<Longrightarrow> handleClose h f c =
     c\<lparr>connected := False, user := OnClose h (user c), interest := None,
       effects := effects c @ terminal_effects f\<rparr>"
  by (simp add: handleClose_def collab_defs terminal_effects_def Let_def)

lemma handleClose_closed: "\<not> connected c \<Longrightarrow> handleClose h f c = c"
  by (simp add: handleClose_def)

lemma fr_effects_body:
  "effects (fr_conn (frame_body h s)) =
     effects (fr_conn s) @ [CallOnMessage (fr_ctx s) (fr_data s)]"
  by (cases s) (simp add: frame_body_def fr_conn_def fr_ctx_def
      fr_data_def log_effect_def Let_def split: prod.splits)

lemma fr_conn_body: "same_core (fr_conn s) (fr_conn (frame_body h s))"
  by (cases s) (simp add: same_core_def frame_body_def fr_conn_def log_effect_def Let_def
      split: prod.splits)

lemma fr_effects_funpow:
  "effects (fr_conn ((frame_body h ^^ k) s)) =
     effects (fr_conn s) @
     map (\<lambda>j. CallOnMessage (fr_ctx ((frame_body h ^^ j) s)) (fr_data ((frame_body h ^^ j) s))) [0..<k]"
  by (induction k) (simp_all add: fr_effects_body)

lemma same_core_trans: "same_core a b \<Longrightarrow> same_core b c \<Longrightarrow> same_core a c"
  by (simp add: same_core_def)

lemma fr_conn_funpow: "same_core (fr_conn s) (fr_conn ((frame_body h ^^ k) s))"
proof (induction k)
  case 0
  show ?case by (simp add: same_core_def)
next
  case (Suc k)
  have "same_core (fr_conn ((frame_body h ^^ k) s)) (fr_conn ((frame_body h ^^ Suc k) s))"
    using fr_conn_body[where s="(frame_body h ^^ k) s" and h=h] by simp
  with Suc.IH show ?case by (rule same_core_trans)
qed

lemma frame_start_parts:
  "fr_out (frame_start h buffer c) = []"
  "effects (fr_conn (frame_start h buffer c)) = effects c"
  by (simp_all add: frame_start_def fr_out_def fr_conn_def split: prod.splits)

lemma frame_start_core: "same_core c (fr_conn (frame_start h buffer c))"
  by (simp add: frame_start_def same_core_def fr_conn_def split: prod.splits)

lemma handlerProtocol_Some_iff:
  "handlerProtocol h buffer c = Some (out, rest, c') \<longleftrightarrow>
     (\<exists>t. frame_loop h (frame_start h buffer c) = Some t \<and>
          out = fr_out t \<and> rest = fr_buffer t \<and> c' = fr_conn t)"
  by (auto simp add: handlerProtocol_def fr_out_def fr_buffer_def fr_conn_def split: option.splits)

lemma handlerProtocol_core:
  assumes "handlerProtocol h buffer c = Some (out, rest, c')"
  shows "same_core c c'"
proof -
  from assms obtain t where t: "frame_loop h (frame_start h buffer c) = Some t"
    and c': "c' = fr_conn t"
    unfolding handlerProtocol_Some_iff by (elim exE conjE)
  from frame_loop_Some[OF t] obtain k where
    k: "(\<forall>j<k. frame_pending ((frame_body h ^^ j) (frame_start h buffer c))) \<and>
        \<not> frame_pending ((frame_body h ^^ k) (frame_start h buffer c)) \<and>
        t = (frame_body h ^^ k) (frame_start h buffer c)" ..
  have "same_core (fr_conn (frame_start h buffer c)) c'"
    using fr_conn_funpow[where s="frame_start h buffer c" and h=h and k=k] k c' by simp
  with frame_start_core show ?thesis by (rule same_core_trans)
qed

section \<open>The framing loop against the framing contract\<close>

lemma frame_start_unpack_next: "frame_start h buffer c = unpack_next h buffer [] c"
  by (simp add: frame_start_def unpack_next_def)

lemma frame_body_unpack_next:
  "OnMessage h (user c) ctx receivedData = (reply, u2) \<Longrightarrow>
   (if reply = [] then ([], u2) else Packet h u2 reply) = (packed, u3) \<Longrightarrow>
   frame_body h (ctx, receivedData, buffer, out, c) =
     unpack_next h buffer (out @ packed)
       (c\<lparr>user := u3, effects := effects c @ [CallOnMessage ctx receivedData]\<rparr>)"
  by (auto simp add: frame_body_def unpack_next_def log_effect_def Let_def
      split: prod.splits if_splits)

lemma framing_spec_loop:
  "framing_spec h n (user c) buffer = Some (out, frames, rest, u') \<Longrightarrow>
   frame_loop h (unpack_next h buffer out0 c) =
     Some (None, [], rest, out0 @ out,
           c\<lparr>user := u', effects := effects c @ on_message_calls frames\<rparr>)"
proof (induction n arbitrary: c buffer out0 out frames)
  case 0
  then show ?case by simp
next
  case (Suc n)
  obtain ctx payload buffer' u1 where
    un: "UnPacket h (user c) buffer = ((ctx, payload), buffer', u1)"
    by (metis prod.exhaust)
  have start: "unpack_next h buffer out0 c = (ctx, payload, buffer', out0, c\<lparr>user := u1\<rparr>)"
    by (simp add: unpack_next_def un)
  show ?case
  proof (cases "ctx = None \<and> payload = []")
    case True
    with Suc.prems un have "out = []" "frames = []" "rest = buffer'" "u' = u1"
      by simp_all
    moreover have "\<not> frame_pending (unpack_next h buffer out0 c)"
      using True by (simp add: start frame_pending_def)
    ultimately show ?thesis
      by (simp add: frame_loop_stop start True on_message_calls_def)
  next
    case False
    obtain reply u2 where om: "OnMessage h u1 ctx payload = (reply, u2)"
      by (metis prod.exhaust)
    obtain packed u3 where pk: "(if reply = [] then ([], u2) else Packet h u2 reply) = (packed, u3)"
      by (metis prod.exhaust)
    from Suc.prems un False om pk obtain out' frames' where
      rec: "framing_spec h n u3 buffer' = Some (out', frames', rest, u')"
      and out: "out = packed @ out'" and frames: "frames = (ctx, payload) # frames'"
      by (auto split: option.splits)
    let ?c2 = "c\<lparr>user := u3, effects := effects c @ [CallOnMessage ctx payload]\<rparr>"
    have pend: "frame_pending (unpack_next h buffer out0 c)"
      using False by (auto simp add: start frame_pending_def)
    have body: "frame_body h (unpack_next h buffer out0 c) =
        unpack_next h buffer' (out0 @ packed) ?c2"
      unfolding start
      using frame_body_unpack_next[where c = "c\<lparr>user := u1\<rparr>" and h = h and ctx = ctx
          and receivedData = payload and reply = reply and ?u2.0 = u2 and packed = packed
          and ?u3.0 = u3 and buffer = buffer' and out = out0] om pk
      by simp
    have "framing_spec h n (user ?c2) buffer' = Some (out', frames', rest, u')"
      using rec by simp
    from Suc.IH[OF this, of "out0 @ packed"]
    have "frame_loop h (unpack_next h buffer' (out0 @ packed) ?c2) =
        Some (None, [], rest, (out0 @ packed) @ out',
              ?c2\<lparr>user := u', effects := effects ?c2 @ on_message_calls frames'\<rparr>)" .
    then show ?thesis
      by (simp add: frame_loop_go[OF pend] body out frames on_message_calls_def)
  qed
qed

lemma loop_framing_spec:
  assumes "frame_loop h s = Some t"
  shows "\<forall>buffer out0 c. s = unpack_next h buffer out0 c \<longrightarrow>
           (\<exists>n out frames rest u'.
              framing_spec h n (user c) buffer = Some (out, frames, rest, u') \<and>
              t = (None, [], rest, out0 @ out,
                   c\<lparr>user := u', effects := effects c @ on_message_calls frames\<rparr>))"
proof (rule frame_loop.raw_induct
    [where P = "\<lambda>h s t. \<forall>buffer out0 c. s = unpack_next h buffer out0 c \<longrightarrow>
           (\<exists>n out frames rest u'.
              framing_spec h n (user c) buffer = Some (out, frames, rest, u') \<and>
              t = (None, [], rest, out0 @ out,
                   c\<lparr>user := u', effects := effects c @ on_message_calls frames\<rparr>))",
     OF _ assms])
  fix loop :: "('a, 'b) handlers \<Rightarrow> ('a, 'b) framing \<Rightarrow> ('a, 'b) framing option"
  fix h s t
  assume IH: "\<And>h s t. loop h s = Some t \<Longrightarrow>
      \<forall>buffer out0 c. s = unpack_next h buffer out0 c \<longrightarrow>
           (\<exists>n out frames rest u'.
              framing_spec h n (user c) buffer = Some (out, frames, rest, u') \<and>
              t = (None, [], rest, out0 @ out,
                   c\<lparr>user := u', effects := effects c @ on_message_calls frames\<rparr>))"
    and eq: "(if frame_pending s then loop h (frame_body h s) else Some s) = Some t"
  show "\<forall>buffer out0 c. s = unpack_next h buffer out0 c \<longrightarrow>
           (\<exists>n out frames rest u'.
              framing_spec h n (user c) buffer = Some (out, frames, rest, u') \<and>
              t = (None, [], rest, out0 @ out,
                   c\<lparr>user := u', effects := effects c @ on_message_calls frames\<rparr>))"
  proof (intro allI impI)
    fix buffer out0 and c :: "('a, 'b) Connection"
    assume s: "s = unpack_next h buffer out0 c"
    obtain ctx payload buffer' u1 where
      un: "UnPacket h (user c) buffer = ((ctx, payload), buffer', u1)"
      by (metis prod.exhaust)
    have start: "s = (ctx, payload, buffer', out0, c\<lparr>user := u1\<rparr>)"
      by (simp add: s unpack_next_def un)
    show "\<exists>n out frames rest u'.
              framing_spec h n (user c) buffer = Some (out, frames, rest, u') \<and>
              t = (None, [], rest, out0 @ out,
                   c\<lparr>user := u', effects := effects c @ on_message_calls frames\<rparr>)"
    proof (cases "ctx = None \<and> payload = []")
      case True
      then have "\<not> frame_pending s" by (simp add: start frame_pending_def)
      with eq have t: "t = s" by simp
      have "framing_spec h (Suc 0) (user c) buffer = Some ([], [], buffer', u1)"
        using True un by simp
      moreover have "t = (None, [], buffer', out0 @ [],
          c\<lparr>user := u1, effects := effects c @ on_message_calls []\<rparr>)"
        using True by (simp add: t start on_message_calls_def)
      ultimately show ?thesis by blast
    next
      case False
      then have pend: "frame_pending s" by (auto simp add: start frame_pending_def)
      with eq have run: "loop h (frame_body h s) = Some t" by simp
      obtain reply u2 where om: "OnMessage h u1 ctx payload = (reply, u2)"
        by (metis prod.exhaust)
      obtain packed u3 where
        pk: "(if reply = [] then ([], u2) else Packet h u2 reply) = (packed, u3)"
        by (metis prod.exhaust)
      let ?c2 = "c\<lparr>user := u3, effects := effects c @ [CallOnMessage ctx payload]\<rparr>"
      have body: "frame_body h s = unpack_next h buffer' (out0 @ packed) ?c2"
        unfolding start
        using frame_body_unpack_next[where c = "c\<lparr>user := u1\<rparr>" and h = h and ctx = ctx
            and receivedData = payload and reply = reply and ?u2.0 = u2 and packed = packed
            and ?u3.0 = u3 and buffer = buffer' and out = out0] om pk
        by simp
      from IH[OF run, rule_format, OF body] obtain n out' frames' rest u' where
        rec: "framing_spec h n (user ?c2) buffer' = Some (out', frames', rest, u')"
        and t: "t = (None, [], rest, (out0 @ packed) @ out',
                   ?c2\<lparr>user := u', effects := effects ?c2 @ on_message_calls frames'\<rparr>)"
        by blast
      have "framing_spec h (Suc n) (user c) buffer =
          Some (packed @ out', (ctx, payload) # frames', rest, u')"
        using rec un False om pk by simp
      moreover have "t = (None, [], rest, out0 @ (packed @ out'),
          c\<lparr>user := u', effects := effects c @ on_message_calls ((ctx, payload) # frames')\<rparr>)"
        by (simp add: t on_message_calls_def)
      ultimately show ?thesis by blast
    qed
  qed
qed

section \<open>Case lemmas for the handlers\<close>

lemma echo_simps:
  "UnPacket echo u [] = ((None, []), [], u)"
  "UnPacket echo u (x # xs) = ((None, [x]), xs, u)"
  "Packet echo u d = (d, u)"
  "OnMessage echo u ctx d = (d, u)"
  "OnClose echo u = u"
  by (simp_all add: echo_def)

lemma HandleEvent_empty_outBuffer:
  "outBuffer c = [] \<Longrightarrow> events AND EventErr = 0 \<Longrightarrow>
   HandleEvent h f events i c =
     Some (if idleTime c > 0 then c\<lparr>activeTime := Unix (io_now i)\<rparr> else c)"
  by (simp add: HandleEvent_def rb_Length_def)

lemma HandleEvent_pending_write:
  "outBuffer c \<noteq> [] \<Longrightarrow> events AND EventErr = 0 \<Longrightarrow> events AND EventWrite \<noteq> 0 \<Longrightarrow>
   HandleEvent h f events i c =
     Some (handleWrite h f i (if idleTime c > 0 then c\<lparr>activeTime := Unix (io_now i)\<rparr> else c))"
  by (simp add: HandleEvent_def rb_Length_def)

lemma HandleEvent_pending_read:
  "outBuffer c \<noteq> [] \<Longrightarrow> events AND EventErr = 0 \<Longrightarrow> events AND EventWrite = 0 \<Longrightarrow>
   events AND EventRead \<noteq> 0 \<Longrightarrow>
   HandleEvent h f events i c =
     handleRead h f i (if idleTime c > 0 then c\<lparr>activeTime := Unix (io_now i)\<rparr> else c)"
  by (simp add: HandleEvent_def rb_Length_def)

lemma sendInLoop_append:
  "outBuffer c \<noteq> [] \<Longrightarrow> sendInLoop h w en data c = c\<lparr>outBuffer := outBuffer c @ data\<rparr>"
  by (simp add: sendInLoop_def rb_Length_def rb_Write_def)

lemma sendInLoop_EAGAIN:
  "outBuffer c = [] \<Longrightarrow>
   sendInLoop h (Errno EAGAIN) en data c = log_effect (SysWrite (fd c) data) c"
  by (simp add: sendInLoop_def rb_Length_def)

lemma sendInLoop_fatal:
  "outBuffer c = [] \<Longrightarrow> e \<noteq> EAGAIN \<Longrightarrow>
   sendInLoop h (Errno e) en data c = handleClose h (fd c) (log_effect (SysWrite (fd c) data) c)"
  by (simp add: sendInLoop_def rb_Length_def log_effect_def)

lemma sendInLoop_Ret:
  "outBuffer c = [] \<Longrightarrow>
   sendInLoop h (Ret n) en data c =
     (if (n = 0 \<or> n < length data) \<and> data \<noteq> []
      then snd (EnableReadWrite en (fd c)
             ((log_effect (SysWrite (fd c) data) c)\<lparr>outBuffer := drop n data\<rparr>))
      else log_effect (SysWrite (fd c) data) c)"
  by (auto simp add: sendInLoop_def rb_Length_def rb_Write_def log_effect_def Let_def)





section \<open>Write interest follows the backlog\<close>

lemma handleWrite_Errno:
  "rb_PeekAll (io_wrap i) (outBuffer c) = (first, second) \<Longrightarrow> io_write1 i = Errno e \<Longrightarrow>
   handleWrite h f i c =
     (if e = EAGAIN then log_effect (SysWrite (fd c) first) c
      else handleClose h f (log_effect (SysWrite (fd c) first) c))"
  by (simp add: handleWrite_def Let_def)

lemma handleWrite_Ret_single:
  "rb_PeekAll (io_wrap i) (outBuffer c) = (first, second) \<Longrightarrow> io_write1 i = Ret n \<Longrightarrow>
   n \<noteq> length first \<or> second = [] \<Longrightarrow>
   handleWrite h f i c =
     handleWrite_done (io_enable i) f
       ((log_effect (SysWrite (fd c) first) c)\<lparr>outBuffer := drop n (outBuffer c)\<rparr>)"
  by (auto simp add: handleWrite_def rb_Retrieve_def Let_def log_effect_def)

lemma handleWrite_Ret_Errno:
  "rb_PeekAll (io_wrap i) (outBuffer c) = (first, second) \<Longrightarrow> io_write1 i = Ret n \<Longrightarrow>
   n = length first \<Longrightarrow> second \<noteq> [] \<Longrightarrow> io_write2 i = Errno e \<Longrightarrow>
   handleWrite h f i c =
     (if e = EAGAIN
      then log_effect (SysWrite (fd c) second)
             ((log_effect (SysWrite (fd c) first) c)\<lparr>outBuffer := drop n (outBuffer c)\<rparr>)
      else handleClose h f
             (log_effect (SysWrite (fd c) second)
                ((log_effect (SysWrite (fd c) first) c)\<lparr>outBuffer := drop n (outBuffer c)\<rparr>)))"
  by (simp add: handleWrite_def rb_Retrieve_def Let_def log_effect_def)

lemma handleWrite_Ret_Ret:
  "rb_PeekAll (io_wrap i) (outBuffer c) = (first, second) \<Longrightarrow> io_write1 i = Ret n \<Longrightarrow>
   n = length first \<Longrightarrow> second \<noteq> [] \<Longrightarrow> io_write2 i = Ret m \<Longrightarrow>
   handleWrite h f i c =
     handleWrite_done (io_enable i) f
       ((log_effect (SysWrite (fd c) second)
           ((log_effect (SysWrite (fd c) first) c)\<lparr>outBuffer := drop n (outBuffer c)\<rparr>))
          \<lparr>outBuffer := drop m (drop n (outBuffer c))\<rparr>)"
  by (simp add: handleWrite_def rb_Retrieve_def Let_def log_effect_def)

lemma imb_log_effect [simp]: "interest_matches_backlog (log_effect e c) = interest_matches_backlog c"
  by (simp add: interest_matches_backlog_def log_effect_def)







lemma imb_inBuffer [simp]:
  "interest_matches_backlog (c\<lparr>inBuffer := b\<rparr>) = interest_matches_backlog c"
  by (simp add: interest_matches_backlog_def)

lemma imb_user [simp]:
  "interest_matches_backlog (c\<lparr>user := u\<rparr>) = interest_matches_backlog c"
  by (simp add: interest_matches_backlog_def)

lemma imb_queue [simp]:
  "interest_matches_backlog (c\<lparr>queue := q\<rparr>) = interest_matches_backlog c"
  by (simp add: interest_matches_backlog_def)

lemma imb_activeTime [simp]:
  "interest_matches_backlog (c\<lparr>activeTime := q\<rparr>) = interest_matches_backlog c"
  by (simp add: interest_matches_backlog_def)

lemma imb_connected [simp]:
  "interest_matches_backlog (c\<lparr>connected := q\<rparr>) = interest_matches_backlog c"
  by (simp add: interest_matches_backlog_def)







section \<open>The terminal transition runs at most once\<close>

lemma terminal_log_log_effect:
  "terminal_log (log_effect e c) = terminal_log c @ (if is_terminal e then [e] else [])"
  by (simp add: terminal_log_def log_effect_def)

lemma cao_same:
  "connected c' = connected c \<Longrightarrow> terminal_log c' = terminal_log c \<Longrightarrow>
   closed_at_most_once c \<Longrightarrow> closed_at_most_once c'"
  by (simp add: closed_at_most_once_def)

lemma cao_disconnect:
  "\<not> connected c' \<Longrightarrow> terminal_log c' = terminal_log c \<Longrightarrow>
   closed_at_most_once c \<Longrightarrow> closed_at_most_once c'"
  by (auto simp add: closed_at_most_once_def)

lemma cao_handleClose:
  "closed_at_most_once c \<Longrightarrow> closed_at_most_once (handleClose h f c)"
proof (cases "connected c")
  case False
  assume "closed_at_most_once c"
  with False show ?thesis by (simp add: handleClose_closed)
next
  case True
  assume "closed_at_most_once c"
  with True have "terminal_log c = []" by (simp add: closed_at_most_once_def)
  then have "terminal_log (handleClose h f c) = terminal_effects f"
    using True
    by (simp add: handleClose_connected terminal_log_def terminal_effects_def)
  then show ?thesis
    using True by (auto simp add: closed_at_most_once_def handleClose_connected)
qed

lemma cao_log_effect:
  "\<not> is_terminal e \<Longrightarrow> closed_at_most_once (log_effect e c) = closed_at_most_once c"
  using terminal_log_log_effect[of e c]
  by (simp add: closed_at_most_once_def log_effect_def)

lemma cao_updates [simp]:
  "closed_at_most_once (c\<lparr>outBuffer := b\<rparr>) = closed_at_most_once c"
  "closed_at_most_once (c\<lparr>inBuffer := b\<rparr>) = closed_at_most_once c"
  "closed_at_most_once (c\<lparr>user := u\<rparr>) = closed_at_most_once c"
  "closed_at_most_once (c\<lparr>queue := q\<rparr>) = closed_at_most_once c"
  "closed_at_most_once (c\<lparr>activeTime := a\<rparr>) = closed_at_most_once c"
  "closed_at_most_once (c\<lparr>interest := r\<rparr>) = closed_at_most_once c"
  by (simp_all add: closed_at_most_once_def terminal_log_def)

lemma cao_EnableRead [simp]:
  "closed_at_most_once (snd (EnableRead r f c)) = closed_at_most_once c"
  by (simp add: EnableRead_def cao_log_effect split: option.splits)

lemma cao_EnableReadWrite [simp]:
  "closed_at_most_once (snd (EnableReadWrite r f c)) = closed_at_most_once c"
  by (simp add: EnableReadWrite_def cao_log_effect split: option.splits)

lemma cao_sendInLoop:
  assumes "closed_at_most_once c"
  shows "closed_at_most_once (sendInLoop h w en data c)"
proof (cases "outBuffer c = []")
  case False
  with assms show ?thesis by (simp add: sendInLoop_append)
next
  case True
  show ?thesis
  proof (cases w)
    case (Ret n)
    with True assms show ?thesis by (simp add: sendInLoop_Ret cao_log_effect)
  next
    case (Errno e)
    with True assms show ?thesis
      by (cases "e = EAGAIN")
         (simp_all add: sendInLoop_EAGAIN sendInLoop_fatal cao_handleClose cao_log_effect)
  qed
qed

lemma cao_handleWrite_done:
  "closed_at_most_once (handleWrite_done en f c) = closed_at_most_once c"
  by (simp add: handleWrite_done_def)

lemma cao_handleWrite:
  assumes inv: "closed_at_most_once c"
  shows "closed_at_most_once (handleWrite h f i c)"
proof -
  obtain first second where pk: "rb_PeekAll (io_wrap i) (outBuffer c) = (first, second)"
    by (cases "rb_PeekAll (io_wrap i) (outBuffer c)")
  show ?thesis
  proof (cases "io_write1 i")
    case (Errno e)
    show ?thesis
      unfolding handleWrite_Errno[OF pk Errno] using inv
      by (simp add: cao_handleClose cao_log_effect)
  next
    case (Ret n)
    show ?thesis
    proof (cases "n \<noteq> length first \<or> second = []")
      case True
      show ?thesis
        unfolding handleWrite_Ret_single[OF pk Ret True] using inv
        by (simp add: cao_handleWrite_done cao_log_effect)
    next
      case False
      then have n: "n = length first" and s: "second \<noteq> []" by simp_all
      show ?thesis
      proof (cases "io_write2 i")
        case (Errno e)
        show ?thesis
          unfolding handleWrite_Ret_Errno[OF pk Ret n s Errno] using inv
          by (simp add: cao_handleClose cao_log_effect)
      next
        case Ret2: (Ret m)
        show ?thesis
          unfolding handleWrite_Ret_Ret[OF pk Ret n s Ret2] using inv
          by (simp add: cao_handleWrite_done cao_log_effect)
      qed
    qed
  qed
qed

lemma handlerProtocol_terminal_log:
  assumes "handlerProtocol h buffer c = Some (out, rest, c')"
  shows "terminal_log c' = terminal_log c"
proof -
  from assms obtain t where t: "frame_loop h (frame_start h buffer c) = Some t"
    and c': "c' = fr_conn t"
    unfolding handlerProtocol_Some_iff by (elim exE conjE)
  from frame_loop_Some[OF t] obtain k where
    k: "(\<forall>j<k. frame_pending ((frame_body h ^^ j) (frame_start h buffer c))) \<and>
        \<not> frame_pending ((frame_body h ^^ k) (frame_start h buffer c)) \<and>
        t = (frame_body h ^^ k) (frame_start h buffer c)" ..
  have "effects c' = effects c @
      map (\<lambda>j. CallOnMessage (fr_ctx ((frame_body h ^^ j) (frame_start h buffer c)))
                             (fr_data ((frame_body h ^^ j) (frame_start h buffer c)))) [0..<k]"
    using k c' by (simp add: fr_effects_funpow frame_start_parts)
  then show ?thesis
    by (simp add: terminal_log_def filter_map comp_def)
qed

lemma cao_handlerProtocol:
  assumes "handlerProtocol h buffer c = Some (out, rest, c')" and "closed_at_most_once c"
  shows "closed_at_most_once c'"
proof -
  have "connected c' = connected c"
    using handlerProtocol_core[OF assms(1)] by (simp add: same_core_def)
  with handlerProtocol_terminal_log[OF assms(1)] assms(2) show ?thesis
    by (simp add: closed_at_most_once_def)
qed

lemma cao_handleRead:
  assumes "closed_at_most_once c" and "handleRead h f i c = Some c'"
  shows "closed_at_most_once c'"
proof (cases "io_read i")
  case (Errno e)
  with assms show ?thesis
    by (cases "e = EAGAIN") (auto simp add: handleRead_def Let_def cao_handleClose cao_log_effect)
next
  case (Ret bytes)
  let ?c1 = "log_effect (SysRead (fd c)) c"
  have c1: "closed_at_most_once ?c1" using assms(1) by (simp add: cao_log_effect)
  show ?thesis
  proof (cases "bytes = []")
    case True
    with Ret assms show ?thesis
      by (auto simp add: handleRead_def Let_def cao_handleClose cao_log_effect)
  next
    case False
    let ?buf = "if inBuffer c = [] then bytes else inBuffer c @ bytes"
    from assms(2) Ret False obtain out rest c2 where
      hp: "handlerProtocol h ?buf ?c1 = Some (out, rest, c2)"
      by (auto simp add: handleRead_def Let_def rb_Length_def rb_Write_def log_effect_def
          split: option.splits if_splits)
    have c2: "closed_at_most_once c2"
      using cao_handlerProtocol[OF hp c1] .
    from assms(2) Ret False hp have
      "c' = (let c3 = (if inBuffer c = [] then (if rest = [] then c2 else c2\<lparr>inBuffer := inBuffer c2 @ rest\<rparr>)
                       else c2\<lparr>inBuffer := rest\<rparr>)
             in if out = [] then c3 else sendInLoop h (io_write1 i) (io_enable i) out c3)"
      by (auto simp add: handleRead_def Let_def rb_Length_def rb_Write_def log_effect_def
          split: if_splits)
    with c2 show ?thesis
      by (auto simp add: Let_def cao_sendInLoop)
  qed
qed

lemma cao_HandleEvent:
  "closed_at_most_once c \<Longrightarrow> HandleEvent h f events i c = Some c' \<Longrightarrow>
   closed_at_most_once c'"
  by (auto simp add: HandleEvent_def Let_def cao_handleClose cao_handleWrite
      split: if_splits dest: cao_handleRead[rotated])

lemma cao_runQueued:
  "closed_at_most_once c \<Longrightarrow> closed_at_most_once (runQueued h w en c)"
  by (auto simp add: runQueued_def runTask_def cao_sendInLoop cao_handleClose
      split: list.splits task.splits prod.splits)

lemma cao_ShutdownWrite:
  "closed_at_most_once c \<Longrightarrow> closed_at_most_once (snd (ShutdownWrite r c))"
  by (auto simp add: ShutdownWrite_def closed_at_most_once_def terminal_log_def log_effect_def)

lemma cao_step:
  "closed_at_most_once c \<Longrightarrow> step h a c = Some c' \<Longrightarrow> closed_at_most_once c'"
  by (cases a)
     (auto simp add: cao_runQueued closeTimeoutConn_def Close_def Send_def cao_ShutdownWrite
        QueueInLoop_def Let_def cao_log_effect dest: cao_HandleEvent)

lemma cao_run:
  "closed_at_most_once c \<Longrightarrow> run h as c = Some c' \<Longrightarrow> closed_at_most_once c'"
proof (induction as arbitrary: c)
  case Nil
  then show ?case by simp
next
  case (Cons a as)
  from Cons.prems(2) obtain c1 where s: "step h a c = Some c1" and r: "run h as c1 = Some c'"
    by (auto split: option.splits)
  from cao_step[OF Cons.prems(1) s] have "closed_at_most_once c1" .
  from Cons.IH[OF this r] show ?case .
qed

lemma terminal_transition_at_most_once:
  "run h as (New f u idle now) = Some c \<Longrightarrow> closed_at_most_once c"
proof -
  have "closed_at_most_once (New f u idle now :: ('a, 'b) Connection)"
    by (simp add: closed_at_most_once_def terminal_log_def New_def)
  then show "run h as (New f u idle now) = Some c \<Longrightarrow> closed_at_most_once c"
    by (rule cao_run)
qed

section \<open>Runs of the model\<close>

lemma quiet_enable [simp]: "io_enable quiet = None"
  by (simp add: quiet_def)

lemma conn5_fields:
  "fd conn5 = 5" "connected conn5" "outBuffer conn5 = []" "inBuffer conn5 = []"
  "effects conn5 = []" "queue conn5 = []" "interest conn5 = Some ReadOnly"
  "idleTime conn5 = 0"
  by (simp_all add: conn5_def New_def)

lemmas echo_eval = handlerProtocol_def frame_start_def frame_loop_go frame_loop_stop
  frame_pending_def frame_body_def log_effect_def echo_simps

lemma echo_run_read:
  "handlerProtocol echo [1, 2] (conn5\<lparr>effects := [SysRead 5]\<rparr>) =
     Some ([1, 2], [], conn5\<lparr>effects := [SysRead 5, CallOnMessage None [1],
                                            CallOnMessage None [2]]\<rparr>)"
  by (simp add: echo_eval conn5_fields)

lemma echo_run_read_more:
  "handlerProtocol echo [9, 1, 2] (conn5\<lparr>inBuffer := [9], effects := [SysRead 5]\<rparr>) =
     Some ([9, 1, 2], [],
        conn5\<lparr>inBuffer := [9], effects := [SysRead 5, CallOnMessage None [9],
                    CallOnMessage None [1], CallOnMessage None [2]]\<rparr>)"
  by (simp add: echo_eval conn5_fields)



section \<open>Properties of the connection\<close>

lemma echo_framing_spec:
  "framing_spec echo (Suc (Suc (Suc 0))) (user conn5) [1, 2] =
     Some ([1, 2], [(None, [1]), (None, [2])], [], ())"
  by (simp add: echo_simps)

text \<open>
  C8. The framing loop calls \<^verbatim>\<open>UnPacket\<close> repeatedly, each time on what the
  earlier calls left in the buffer, and ends exactly at the first frame whose context
  and payload are both empty: \<^verbatim>\<open>handlerProtocol\<close> returns if and only if the
  rounds of the framing contract reach such a frame after finitely many calls. Then
  \<^verbatim>\<open>OnMessage\<close> has been invoked once for each frame before it, in order, the
  accumulator returned is the concatenation, in frame order, of the packed replies of
  the frames whose reply is not empty, and the buffer holds what the last call left.
\<close>

theorem handlerProtocol_unpacks:
  "handlerProtocol h buffer c = Some (out, rest, c') \<longleftrightarrow>
     (\<exists>n frames u'.
        framing_spec h n (user c) buffer = Some (out, frames, rest, u') \<and>
        c' = c\<lparr>user := u', effects := effects c @ on_message_calls frames\<rparr>)"
  (is "?L \<longleftrightarrow> ?R")
proof
  assume ?L
  then obtain t where t: "frame_loop h (frame_start h buffer c) = Some t"
    and parts: "out = fr_out t" "rest = fr_buffer t" "c' = fr_conn t"
    unfolding handlerProtocol_Some_iff by (elim exE conjE)
  from loop_framing_spec[OF t, rule_format, OF frame_start_unpack_next]
  obtain n out' frames rest' u' where
    fs: "framing_spec h n (user c) buffer = Some (out', frames, rest', u')"
    and t': "t = (None, [], rest', [] @ out',
                c\<lparr>user := u', effects := effects c @ on_message_calls frames\<rparr>)"
    by blast
  have "out = out'" "rest = rest'"
    "c' = c\<lparr>user := u', effects := effects c @ on_message_calls frames\<rparr>"
    by (simp_all add: parts t' fr_out_def fr_buffer_def fr_conn_def)
  with fs show ?R by blast
next
  assume ?R
  then obtain n frames u' where
    fs: "framing_spec h n (user c) buffer = Some (out, frames, rest, u')"
    and c': "c' = c\<lparr>user := u', effects := effects c @ on_message_calls frames\<rparr>"
    by blast
  from framing_spec_loop[OF fs, of "[]"]
  have "frame_loop h (frame_start h buffer c) =
      Some (None, [], rest, out, c')"
    by (simp add: frame_start_unpack_next c')
  then show ?L by (simp add: handlerProtocol_def)
qed

theorem handlerProtocol_unpacks_witness:
  "framing_spec echo (Suc (Suc (Suc 0))) (user conn5) [1, 2] =
     Some ([1, 2], [(None, [1]), (None, [2])], [], ()) \<and>
   handlerProtocol echo [1, 2] conn5 =
     Some ([1, 2], [],
           conn5\<lparr>user := (),
                 effects := effects conn5 @ on_message_calls [(None, [1]), (None, [2])]\<rparr>)"
proof -
  have "\<exists>n frames u'.
        framing_spec echo n (user conn5) [1, 2] = Some ([1, 2], frames, [], u') \<and>
        conn5\<lparr>user := (),
              effects := effects conn5 @ on_message_calls [(None, [1]), (None, [2])]\<rparr> =
          conn5\<lparr>user := u', effects := effects conn5 @ on_message_calls frames\<rparr>"
    using echo_framing_spec by blast
  then have "handlerProtocol echo [1, 2] conn5 =
     Some ([1, 2], [],
           conn5\<lparr>user := (),
                 effects := effects conn5 @ on_message_calls [(None, [1]), (None, [2])]\<rparr>)"
    by (rule iffD2[OF handlerProtocol_unpacks])
  with echo_framing_spec show ?thesis by (rule conjI)
qed

text \<open>
  C1. With neither \<^verbatim>\<open>ERR\<close> set nor a terminal transition before, an event on a
  connection with an empty \<open>outBuffer\<close> should run the read path when \<^verbatim>\<open>READ\<close> is
  set. \<^verbatim>\<open>HandleEvent\<close> has no branch for the empty \<open>outBuffer\<close>: on a fresh
  connection (idle timeout disabled) a \<^verbatim>\<open>READ\<close> event issues no read and leaves the
  connection as it was.
\<close>

theorem HandleEvent_read_ignored:
  "HandleEvent h f EventRead i (New f u 0 now) = Some (New f u 0 now)"
  by (simp add: HandleEvent_def New_def rb_Length_def EventRead_def EventErr_def)


text \<open>
  C2. Every connection that was connected should see \<^verbatim>\<open>OnClose\<close>, the close of the
  descriptor and the return of both buffers exactly once. After \<^verbatim>\<open>ShutdownWrite\<close>
  has cleared \<open>connected\<close>, neither an error event nor \<^verbatim>\<open>Close\<close> followed by the
  loop's queued work performs any of them: the effect log holds the shutdown only.
\<close>

theorem ShutdownWrite_never_closed:
  "run h [AppShutdownWrite r, Ready EventErr i, AppClose, Queued w en] (New f u 0 now) =
     Some ((New f u 0 now)\<lparr>connected := False, effects := [SysShutdown f]\<rparr>)"
  by (simp add: ShutdownWrite_def HandleEvent_def handleClose_def Close_def runQueued_def
      New_def log_effect_def EventErr_def)


text \<open>
  Two calls of \<^verbatim>\<open>Close\<close> on a connected connection, before the loop runs: both
  succeed and both schedule the terminal task.
\<close>

theorem Close_twice_counterexample:
  "fst (Close (snd (Close conn5))) = None \<and>
   queue (snd (Close (snd (Close conn5)))) = [TaskClose, TaskClose]"
  by (simp add: Close_def conn5_def New_def QueueInLoop_def)


text \<open>
  C4 (amended). Every caller of \<^verbatim>\<open>Close\<close> that observes \<open>connected\<close> schedules one
  terminal task and succeeds, leaving \<open>connected\<close> as it is; a caller that observes it
  cleared fails with \<open>ErrConnectionClosed\<close> and schedules nothing. The scheduled task is
  \<^verbatim>\<open>handleClose\<close>, which checks \<open>connected\<close> again, does nothing when it is cleared,
  and always leaves it cleared.
\<close>

theorem Close_recheck:
  "(connected c \<longrightarrow> Close c = (None, c\<lparr>queue := queue c @ [TaskClose]\<rparr>)) \<and>
   (\<not> connected c \<longrightarrow> Close c = (Some ErrConnectionClosed, c)) \<and>
   runTask h w en TaskClose c = handleClose h (fd c) c \<and>
   (\<not> connected c \<longrightarrow> handleClose h f c = c) \<and>
   \<not> connected (handleClose h f c)"
  by (cases "connected c")
     (simp_all add: Close_def QueueInLoop_def runTask_def handleClose_closed
        handleClose_connected)

theorem Close_recheck_witness:
  "Close conn5 = (None, conn5\<lparr>queue := [TaskClose]\<rparr>) \<and>
   Close (handleClose echo 5 conn5) = (Some ErrConnectionClosed, handleClose echo 5 conn5) \<and>
   handleClose echo 5 (handleClose echo 5 conn5) = handleClose echo 5 conn5"
  using Close_recheck[where c = conn5 and h = echo and f = 5]
    Close_recheck[where c = "handleClose echo 5 conn5" and h = echo and f = 5]
  by (simp add: conn5_def New_def)


text \<open>
  C5. \<^verbatim>\<open>Send\<close> on a connection that is not connected returns \<open>ErrConnectionClosed\<close>
  and changes nothing. On a connected one it succeeds, issues no effect of its own (in
  particular no write), and appends one task to the loop's queue; run by the loop, that
  task applies \<^verbatim>\<open>Packet\<close> to the caller's bytes and passes the result to
  \<^verbatim>\<open>sendInLoop\<close>.
\<close>

theorem Send_schedules:
  "(\<not> connected c \<longrightarrow> Send buffer c = (Some ErrConnectionClosed, c)) \<and>
   (connected c \<longrightarrow> Send buffer c = (None, c\<lparr>queue := queue c @ [TaskSend buffer]\<rparr>)) \<and>
   effects (snd (Send buffer c)) = effects c \<and>
   runTask h w en (TaskSend buffer) c =
     sendInLoop h w en (fst (Packet h (user c) buffer)) (c\<lparr>user := snd (Packet h (user c) buffer)\<rparr>)"
  by (simp add: Send_def QueueInLoop_def runTask_def split: prod.splits)

theorem Send_schedules_witness:
  "Send [7] conn5 = (None, conn5\<lparr>queue := [TaskSend [7]]\<rparr>) \<and>
   Send [7] (handleClose echo 5 conn5) = (Some ErrConnectionClosed, handleClose echo 5 conn5) \<and>
   runTask echo (Ret 1) None (TaskSend [7]) conn5 = sendInLoop echo (Ret 1) None [7] conn5"
  using Send_schedules[where c = conn5 and h = echo and buffer = "[7]" and w = "Ret 1"]
    Send_schedules[where c = "handleClose echo 5 conn5" and h = echo and buffer = "[7]"]
  by (simp add: conn5_def New_def handleClose_connected echo_simps)








text \<open>
  C10. When \<^verbatim>\<open>sendInLoop\<close> is entered with an empty \<open>outBuffer\<close> and its write
  fails with \<open>EAGAIN\<close>, the data is dropped: \<open>outBuffer\<close> stays empty, the poller
  interest and \<open>connected\<close> are unchanged, and the only effect is the write attempt
  itself (no terminal transition, no \<^verbatim>\<open>OnClose\<close>).
\<close>

theorem sendInLoop_would_block:
  "outBuffer c = [] \<Longrightarrow>
   sendInLoop h (Errno EAGAIN) en data c = log_effect (SysWrite (fd c) data) c \<and>
   outBuffer (sendInLoop h (Errno EAGAIN) en data c) = [] \<and>
   interest (sendInLoop h (Errno EAGAIN) en data c) = interest c \<and>
   connected (sendInLoop h (Errno EAGAIN) en data c) = connected c \<and>
   effects (sendInLoop h (Errno EAGAIN) en data c) = effects c @ [SysWrite (fd c) data]"
  by (simp add: sendInLoop_EAGAIN log_effect_def)

theorem sendInLoop_would_block_witness:
  "outBuffer conn5 = [] \<and>
   sendInLoop echo (Errno EAGAIN) None [1, 2, 3] conn5 = conn5\<lparr>effects := [SysWrite 5 [1, 2, 3]]\<rparr>"
  using sendInLoop_would_block[where c = conn5 and h = echo and data = "[1, 2, 3]"]
  by (simp add: conn5_def New_def log_effect_def)




text \<open>
  C9. In the read path, after a read of \<open>n > 0\<close> bytes: with an empty \<open>inBuffer\<close> the
  framing loop runs over the bytes read and what it leaves unconsumed is appended to
  \<open>inBuffer\<close>; with a non-empty \<open>inBuffer\<close> the bytes are appended to it first and
  the framing loop runs over \<open>inBuffer\<close>. In both cases an accumulator that is not
  empty is handed to \<^verbatim>\<open>sendInLoop\<close>.
\<close>

theorem handleRead_framing:
  "io_read i = Ret bytes \<Longrightarrow> bytes \<noteq> [] \<Longrightarrow>
   (inBuffer c = [] \<longrightarrow>
      handleRead h f i c =
        (case handlerProtocol h bytes (log_effect (SysRead (fd c)) c) of
           None \<Rightarrow> None
         | Some (out, rest, c2) \<Rightarrow>
             Some (let c3 = c2\<lparr>inBuffer := inBuffer c2 @ rest\<rparr>
                   in if out = [] then c3 else sendInLoop h (io_write1 i) (io_enable i) out c3))) \<and>
   (inBuffer c \<noteq> [] \<longrightarrow>
      handleRead h f i c =
        (case handlerProtocol h (inBuffer c @ bytes) (log_effect (SysRead (fd c)) c) of
           None \<Rightarrow> None
         | Some (out, rest, c2) \<Rightarrow>
             Some (let c3 = c2\<lparr>inBuffer := rest\<rparr>
                   in if out = [] then c3 else sendInLoop h (io_write1 i) (io_enable i) out c3)))"
  by (simp add: handleRead_def rb_Length_def rb_Write_def log_effect_def Let_def
      split: option.splits prod.splits)

theorem handleRead_framing_witness:
  "handleRead echo 5 (quiet\<lparr>io_read := Ret [1, 2], io_write1 := Ret 2\<rparr>) conn5 =
     Some (conn5\<lparr>effects := [SysRead 5, CallOnMessage None [1], CallOnMessage None [2],
                              SysWrite 5 [1, 2]]\<rparr>) \<and>
   handleRead echo 5 (quiet\<lparr>io_read := Ret [1, 2], io_write1 := Ret 1\<rparr>)
       (conn5\<lparr>inBuffer := [9]\<rparr>) =
     Some (conn5\<lparr>outBuffer := [1, 2], inBuffer := [], interest := Some ReadWrite,
                 effects := [SysRead 5, CallOnMessage None [9], CallOnMessage None [1],
                             CallOnMessage None [2], SysWrite 5 [9, 1, 2],
                             LoopEnableReadWrite 5]\<rparr>)"
proof -
  have a: "io_read (quiet\<lparr>io_read := Ret [1, 2], io_write1 := Ret 2\<rparr>) = Ret [1, 2]"
    and b: "io_read (quiet\<lparr>io_read := Ret [1, 2], io_write1 := Ret 1\<rparr>) = Ret [1, 2]"
    and n: "[1, 2] \<noteq> ([] :: byte list)"
    by simp_all
  from handleRead_framing[OF a n, where c = conn5 and h = echo and f = 5]
  have "handleRead echo 5 (quiet\<lparr>io_read := Ret [1, 2], io_write1 := Ret 2\<rparr>) conn5 =
     Some (conn5\<lparr>effects := [SysRead 5, CallOnMessage None [1], CallOnMessage None [2],
                              SysWrite 5 [1, 2]]\<rparr>)"
    by (simp add: conn5_fields echo_run_read sendInLoop_Ret log_effect_def)
  moreover
  from handleRead_framing[OF b n, where c = "conn5\<lparr>inBuffer := [9]\<rparr>" and h = echo and f = 5]
  have "handleRead echo 5 (quiet\<lparr>io_read := Ret [1, 2], io_write1 := Ret 1\<rparr>)
       (conn5\<lparr>inBuffer := [9]\<rparr>) =
     Some (conn5\<lparr>outBuffer := [1, 2], inBuffer := [], interest := Some ReadWrite,
                 effects := [SysRead 5, CallOnMessage None [9], CallOnMessage None [1],
                             CallOnMessage None [2], SysWrite 5 [9, 1, 2],
                             LoopEnableReadWrite 5]\<rparr>)"
    by (simp add: conn5_fields echo_run_read_more sendInLoop_Ret EnableReadWrite_def
        log_effect_def)
  ultimately show ?thesis by (rule conjI)
qed

end
